theory Spec2Isabelle
  imports Main "HOL-Library.Sublist"
begin

section \<open>Python values and errors\<close>

text \<open>
  The scripts work on the values that \<^verbatim>\<open>json.load\<close> and \<^verbatim>\<open>response.json()\<close> return:
  \<^verbatim>\<open>None\<close>, booleans, integers, strings, lists and dictionaries with string keys.
  A dictionary is an association list (its keys are distinct in Python; a lookup reads
  the first entry of a key). JSON numbers with a fraction are Python floats and are left
  out of the embedding.
\<close>

datatype json =
    JNull
  | JBool bool
  | JInt int
  | JStr string
  | JList "json list"
  | JObj "(string \<times> json) list"

text \<open>
  The part of a \<^verbatim>\<open>requests.Response\<close> that the scripts read: the status code, the
  body as text, and the value of \<^verbatim>\<open>response.json()\<close> (\<open>None\<close> when the body is not
  JSON).
\<close>

record response =
  status_code :: int
  resp_text :: string
  resp_json :: "json option"

text \<open>
  The exceptions below \<^verbatim>\<open>requests.exceptions.RequestException\<close>: one raised inside
  \<^verbatim>\<open>requests.get\<close> (a connection error, a timeout, too many redirects), with its message
  and the response it may carry; the \<^verbatim>\<open>HTTPError\<close> of \<^verbatim>\<open>raise_for_status\<close>, which
  carries the response; and the \<^verbatim>\<open>JSONDecodeError\<close> of \<^verbatim>\<open>response.json()\<close>, which
  carries none (a \<^verbatim>\<open>RequestException\<close> since the version 2.27 of the library).
\<close>

datatype request_exception =
    TransportError string "response option"
  | HTTPError response
  | JSONDecodeError

fun exc_response :: "request_exception \<Rightarrow> response option" where
  "exc_response (TransportError msg r) = r"
| "exc_response (HTTPError r) = Some r"
| "exc_response JSONDecodeError = None"

text \<open>The exceptions that the modelled code can raise or let through.\<close>

datatype py_error =
    ValueError
  | TypeError
  | AttributeError
  | KeyError
  | RequestException request_exception
  | Exception string
  | SystemExit int
  | OtherError string

text \<open>
  \<^verbatim>\<open>message.get(key)\<close> and \<^verbatim>\<open>message.get(key, default)\<close>: only a dictionary has the
  method; \<^verbatim>\<open>get\<close> without a default returns \<^verbatim>\<open>None\<close> for a missing key.
\<close>

fun py_get_default :: "json \<Rightarrow> string \<Rightarrow> json \<Rightarrow> py_error + json" where
  "py_get_default (JObj kvs) k d = Inr (case map_of kvs k of None \<Rightarrow> d | Some v \<Rightarrow> v)"
| "py_get_default _ k d = Inl AttributeError"

definition py_get :: "json \<Rightarrow> string \<Rightarrow> py_error + json" where
  "py_get m k = py_get_default m k JNull"

text \<open>
  \<^verbatim>\<open>for x in v\<close>: a list gives its elements, a dictionary its keys, a string its
  characters; the other values are not iterable.
\<close>

fun py_iter :: "json \<Rightarrow> py_error + json list" where
  "py_iter (JList xs) = Inr xs"
| "py_iter (JObj kvs) = Inr (map (\<lambda>kv. JStr (fst kv)) kvs)"
| "py_iter (JStr s) = Inr (map (\<lambda>c. JStr [c]) s)"
| "py_iter _ = Inl TypeError"

text \<open>
  \<^verbatim>\<open>key in v\<close> for a string \<open>key\<close>: a key of a dictionary, an element of a list
  (only a string equals a string), a substring of a string; \<^verbatim>\<open>TypeError\<close> on the
  values that are no containers.
\<close>

fun is_substring :: "string \<Rightarrow> string \<Rightarrow> bool" where
  "is_substring k [] = (k = [])"
| "is_substring k (c # s) = (prefix k (c # s) \<or> is_substring k s)"

fun py_contains :: "json \<Rightarrow> string \<Rightarrow> py_error + bool" where
  "py_contains (JObj kvs) k = Inr (k \<in> set (map fst kvs))"
| "py_contains (JList xs) k = Inr (JStr k \<in> set xs)"
| "py_contains (JStr s) k = Inr (is_substring k s)"
| "py_contains _ k = Inl TypeError"

text \<open>
  \<^verbatim>\<open>v[key]\<close> for a string \<open>key\<close>: the value of the key in a dictionary
  (\<^verbatim>\<open>KeyError\<close> when it is missing); a list and a string take integer indices only and
  the other values take none, so they raise \<^verbatim>\<open>TypeError\<close>.
\<close>

fun py_getitem :: "json \<Rightarrow> string \<Rightarrow> py_error + json" where
  "py_getitem (JObj kvs) k = (case map_of kvs k of None \<Rightarrow> Inl KeyError | Some v \<Rightarrow> Inr v)"
| "py_getitem _ k = Inl TypeError"

text \<open>
  \<^verbatim>\<open>a <= v\<close> and \<^verbatim>\<open>v <= b\<close> for an integer and a JSON value: integers compare,
  a boolean is the integer 0 or 1, anything else raises \<^verbatim>\<open>TypeError\<close>.
\<close>

fun int_le_json :: "int \<Rightarrow> json \<Rightarrow> py_error + bool" where
  "int_le_json a (JInt t) = Inr (a \<le> t)"
| "int_le_json a (JBool b) = Inr (a \<le> (if b then 1 else 0))"
| "int_le_json a _ = Inl TypeError"

fun json_le_int :: "json \<Rightarrow> int \<Rightarrow> py_error + bool" where
  "json_le_int (JInt t) b = Inr (t \<le> b)"
| "json_le_int (JBool c) b = Inr ((if c then 1 else 0) \<le> b)"
| "json_le_int _ b = Inl TypeError"

text \<open>
  The chained comparison \<^verbatim>\<open>start <= created_at <= end\<close> is
  \<^verbatim>\<open>start <= created_at and created_at <= end\<close>: the second comparison runs only when
  the first is true.
\<close>

definition chained_le :: "int \<Rightarrow> json \<Rightarrow> int \<Rightarrow> py_error + bool" where
  "chained_le a v b =
     (case int_le_json a v of
        Inl e \<Rightarrow> Inl e
      | Inr holds \<Rightarrow> if holds then json_le_int v b else Inr False)"

section \<open>The timestamp filter (created\_date\_filter\_openai\_messages.py)\<close>

text \<open>
  The loop of \<^verbatim>\<open>filter_messages\<close>, with the list \<^verbatim>\<open>filtered\<close> as accumulator:
  \<^verbatim>\<open>
    for message in messages:
        created_at = message.get("created_at")
        if created_at is None:
            continue
        if start_timestamp <= created_at <= end_timestamp:
            filtered.append(message)
  \<close>
\<close>

fun filter_messages_loop :: "json list \<Rightarrow> int \<Rightarrow> int \<Rightarrow> json list \<Rightarrow> py_error + json list" where
  "filter_messages_loop [] start_timestamp end_timestamp filtered = Inr filtered"
| "filter_messages_loop (message # rest) start_timestamp end_timestamp filtered =
     (case py_get message ''created_at'' of
        Inl e \<Rightarrow> Inl e
      | Inr created_at \<Rightarrow>
          if created_at = JNull
          then filter_messages_loop rest start_timestamp end_timestamp filtered
          else
            (case chained_le start_timestamp created_at end_timestamp of
               Inl e \<Rightarrow> Inl e
             | Inr in_range \<Rightarrow>
                 if in_range
                 then filter_messages_loop rest start_timestamp end_timestamp (filtered @ [message])
                 else filter_messages_loop rest start_timestamp end_timestamp filtered))"

definition filter_messages :: "json \<Rightarrow> int \<Rightarrow> int \<Rightarrow> py_error + json list" where
  "filter_messages messages start_timestamp end_timestamp =
     (case py_iter messages of
        Inl e \<Rightarrow> Inl e
      | Inr ms \<Rightarrow> filter_messages_loop ms start_timestamp end_timestamp [])"

text \<open>
  \<^verbatim>\<open>parse_timestamp\<close> calls three functions of the Python library, which are parameters
  of the model: \<^verbatim>\<open>int(s)\<close> (\<open>None\<close> when it raises \<^verbatim>\<open>ValueError\<close>),
  \<^verbatim>\<open>datetime.fromisoformat(s)\<close> (\<open>None\<close> when it raises \<^verbatim>\<open>ValueError\<close>) and
  \<^verbatim>\<open>int(dt.timestamp())\<close>. \<^verbatim>\<open>str.replace\<close> is modelled in full: it scans from the
  left and replaces every occurrence of \<open>old\<close> that does not overlap an earlier one.
\<close>

function str_replace :: "string \<Rightarrow> string \<Rightarrow> string \<Rightarrow> string" where
  "str_replace s old new =
     (if old = [] then new @ concat (map (\<lambda>c. c # new) s)
      else if s = [] then []
      else if prefix old s then new @ str_replace (drop (length old) s) old new
      else hd s # str_replace (tl s) old new)"
  by pat_completeness auto
termination
  by (relation "measure (\<lambda>(s, old, new). length s)") auto

declare str_replace.simps [simp del]

definition parse_timestamp ::
  "(string \<Rightarrow> int option) \<Rightarrow> (string \<Rightarrow> 'dt option) \<Rightarrow> ('dt \<Rightarrow> py_error + int) \<Rightarrow>
   string \<Rightarrow> py_error + int" where
  "parse_timestamp int_of_str fromisoformat timestamp timestamp_str =
     (case int_of_str timestamp_str of
        Some n \<Rightarrow> Inr n
      | None \<Rightarrow>
          (case fromisoformat (str_replace timestamp_str ''Z'' ''+00:00'') of
             None \<Rightarrow> Inl ValueError
           | Some dt \<Rightarrow> timestamp dt))"

text \<open>
  \<^verbatim>\<open>get_messages_from_api\<close>: the key comes from the argument or from the environment;
  \<^verbatim>\<open>requests.get(url, headers=headers)\<close> is a parameter that gives the outcome of the
  call.
\<close>

datatype get_outcome = Raises request_exception | Returns response

definition truthy_str :: "string option \<Rightarrow> bool" where
  "truthy_str v = (case v of None \<Rightarrow> False | Some s \<Rightarrow> s \<noteq> [])"

definition response_ok :: "response \<Rightarrow> bool" where
  "response_ok r = (\<not> (400 \<le> status_code r \<and> status_code r < 600))"

definition raise_for_status :: "response \<Rightarrow> py_error + unit" where
  "raise_for_status r =
     (if response_ok r then Inr () else Inl (RequestException (HTTPError r)))"

definition response_json :: "response \<Rightarrow> py_error + json" where
  "response_json r =
     (case resp_json r of
        None \<Rightarrow> Inl (RequestException JSONDecodeError)
      | Some v \<Rightarrow> Inr v)"

definition get_messages_from_api ::
  "(string \<Rightarrow> (string \<times> string) list \<Rightarrow> get_outcome) \<Rightarrow> string option \<Rightarrow> string option \<Rightarrow>
   py_error + json" where
  "get_messages_from_api requests_get environ_key api_key =
     (case (case api_key of None \<Rightarrow> environ_key | Some k \<Rightarrow> Some k) of
        None \<Rightarrow> Inl ValueError
      | Some key \<Rightarrow>
          if key = [] then Inl ValueError
          else
            let headers = [(''Authorization'', ''Bearer '' @ key),
                           (''Content-Type'', ''application/json'')] in
            (case requests_get ''https://api.openai.com/v1/messages'' headers of
               Raises e \<Rightarrow> Inl (RequestException e)
             | Returns response \<Rightarrow>
                 (case raise_for_status response of
                    Inl e \<Rightarrow> Inl e
                  | Inr u \<Rightarrow>
                      (case response_json response of
                         Inl e \<Rightarrow> Inl e
                       | Inr v \<Rightarrow> py_get_default v ''data'' (JList [])))))"

text \<open>
  \<^verbatim>\<open>main\<close>: the two bounds are parsed first, outside any \<^verbatim>\<open>try\<close>; the messages
  come from the file \<^verbatim>\<open>--input\<close> (\<^verbatim>\<open>json.load\<close> is the parameter
  \<open>load_file\<close>) or from the API, where any exception ends the script with
  \<^verbatim>\<open>sys.exit(1)\<close>; the result goes to the file \<^verbatim>\<open>--output\<close> or to the standard output.
\<close>

record args =
  arg_start :: string
  arg_end :: string
  arg_input :: "string option"
  arg_output :: "string option"
  arg_api_key :: "string option"

datatype main_output = WrittenTo string json | Printed json

fun is_dict_with :: "json \<Rightarrow> string \<Rightarrow> bool" where
  "is_dict_with (JObj kvs) k = (k \<in> set (map fst kvs))"
| "is_dict_with _ k = False"

definition main ::
  "(string \<Rightarrow> int option) \<Rightarrow> (string \<Rightarrow> 'dt option) \<Rightarrow> ('dt \<Rightarrow> py_error + int) \<Rightarrow>
   (string \<Rightarrow> py_error + json) \<Rightarrow>
   (string \<Rightarrow> (string \<times> string) list \<Rightarrow> get_outcome) \<Rightarrow> string option \<Rightarrow>
   args \<Rightarrow> py_error + main_output" where
  "main int_of_str fromisoformat timestamp load_file requests_get environ_key args =
     (case parse_timestamp int_of_str fromisoformat timestamp (arg_start args) of
        Inl e \<Rightarrow> Inl e
      | Inr start_timestamp \<Rightarrow>
     (case parse_timestamp int_of_str fromisoformat timestamp (arg_end args) of
        Inl e \<Rightarrow> Inl e
      | Inr end_timestamp \<Rightarrow>
     (case (let from_api =
                  (case get_messages_from_api requests_get environ_key (arg_api_key args) of
                     Inl e \<Rightarrow> Inl (SystemExit 1)
                   | Inr messages \<Rightarrow> Inr messages)
            in case arg_input args of
                 None \<Rightarrow> from_api
               | Some path \<Rightarrow>
                   if path = [] then from_api
                   else (case load_file path of
                           Inl e \<Rightarrow> Inl e
                         | Inr messages \<Rightarrow>
                             if is_dict_with messages ''data''
                             then py_getitem messages ''data''
                             else Inr messages)) of
        Inl e \<Rightarrow> Inl e
      | Inr messages \<Rightarrow>
     (case filter_messages messages start_timestamp end_timestamp of
        Inl e \<Rightarrow> Inl e
      | Inr filtered_messages \<Rightarrow>
          let output_data = JObj [(''data'', JList filtered_messages),
                                  (''count'', JInt (int (length filtered_messages)))] in
          Inr (if truthy_str (arg_output args)
               then WrittenTo (case arg_output args of Some path \<Rightarrow> path | None \<Rightarrow> [])
                      output_data
               else Printed output_data)))))"

section \<open>The metadata filter (metadata\_filtering\_openai\_messages.py)\<close>

text \<open>
  \<^verbatim>\<open>_matches_metadata_filters\<close>: the loop over \<^verbatim>\<open>filters.items()\<close> returns
  \<^verbatim>\<open>False\<close> at the first constraint that fails; \<^verbatim>\<open>or\<close> evaluates
  \<^verbatim>\<open>message_metadata[key] != value\<close> only when the key is in the metadata. The
  constraints are pairs of strings, as \<^verbatim>\<open>main\<close> builds them from
  \<^verbatim>\<open>--metadata key=value\<close>; a JSON value differs from the string \<open>value\<close> unless it
  is that string.
\<close>

fun matches_metadata_filters :: "json \<Rightarrow> (string \<times> string) list \<Rightarrow> py_error + bool" where
  "matches_metadata_filters message_metadata [] = Inr True"
| "matches_metadata_filters message_metadata ((key, val) # filters) =
     (case py_contains message_metadata key of
        Inl e \<Rightarrow> Inl e
      | Inr present \<Rightarrow>
          if \<not> present then Inr False
          else
            (case py_getitem message_metadata key of
               Inl e \<Rightarrow> Inl e
             | Inr v \<Rightarrow>
                 if v \<noteq> JStr val then Inr False
                 else matches_metadata_filters message_metadata filters))"

text \<open>
  The filtering loop of \<^verbatim>\<open>get_messages\<close>, with \<^verbatim>\<open>filtered_messages\<close> as accumulator:
  \<^verbatim>\<open>
    for message in messages:
        message_metadata = message.get("metadata", {})
        if self._matches_metadata_filters(message_metadata, metadata_filters):
            filtered_messages.append(message)
  \<close>
\<close>

fun get_messages_loop ::
  "json list \<Rightarrow> (string \<times> string) list \<Rightarrow> json list \<Rightarrow> py_error + json list" where
  "get_messages_loop [] metadata_filters filtered_messages = Inr filtered_messages"
| "get_messages_loop (message # rest) metadata_filters filtered_messages =
     (case py_get_default message ''metadata'' (JObj []) of
        Inl e \<Rightarrow> Inl e
      | Inr message_metadata \<Rightarrow>
          (case matches_metadata_filters message_metadata metadata_filters of
             Inl e \<Rightarrow> Inl e
           | Inr matches \<Rightarrow>
               if matches
               then get_messages_loop rest metadata_filters (filtered_messages @ [message])
               else get_messages_loop rest metadata_filters filtered_messages))"

text \<open>
  Lines 66 to 75 of \<^verbatim>\<open>get_messages\<close>: \<^verbatim>\<open>if metadata_filters:\<close> is false for
  \<^verbatim>\<open>None\<close> and for the empty dictionary, and then \<^verbatim>\<open>messages\<close> is returned as it is.
\<close>

definition get_messages_filter :: "json \<Rightarrow> (string \<times> string) list option \<Rightarrow> py_error + json" where
  "get_messages_filter messages metadata_filters =
     (case metadata_filters of
        None \<Rightarrow> Inr messages
      | Some [] \<Rightarrow> Inr messages
      | Some filters \<Rightarrow>
          (case py_iter messages of
             Inl e \<Rightarrow> Inl e
           | Inr ms \<Rightarrow>
               (case get_messages_loop ms filters [] of
                  Inl e \<Rightarrow> Inl e
                | Inr filtered_messages \<Rightarrow> Inr (JList filtered_messages))))"

text \<open>
  The client holds the base URL and the headers that \<^verbatim>\<open>__init__\<close> builds. The request
  that \<^verbatim>\<open>get_messages\<close> sends is part of its result, with the lines it prints and the
  value it returns (or the exception it lets through).
\<close>

record client =
  api_key :: string
  base_url :: string
  headers :: "(string \<times> string) list"

definition OpenAIMessageClient :: "string option \<Rightarrow> string option \<Rightarrow> py_error + client" where
  "OpenAIMessageClient key environ_key =
     (case (if truthy_str key then key else environ_key) of
        None \<Rightarrow> Inl ValueError
      | Some k \<Rightarrow>
          if k = [] then Inl ValueError
          else Inr \<lparr>api_key = k, base_url = ''https://api.openai.com/v1'',
                    headers = [(''Authorization'', ''Bearer '' @ k),
                               (''Content-Type'', ''application/json'')]\<rparr>)"

record params =
  param_limit :: int
  param_order :: string

record request =
  req_url :: string
  req_headers :: "(string \<times> string) list"
  req_params :: params

datatype out_line =
    ErrorRetrievingMessages request_exception
  | ResponseStatus int
  | ResponseBody string

record get_messages_result =
  sent :: request
  printed :: "out_line list"
  returned :: "py_error + json"

text \<open>The body of the \<^verbatim>\<open>try\<close> block, given the outcome of \<^verbatim>\<open>requests.get\<close>.\<close>

definition get_messages_try :: "get_outcome \<Rightarrow> (string \<times> string) list option \<Rightarrow> py_error + json" where
  "get_messages_try outcome metadata_filters =
     (case outcome of
        Raises e \<Rightarrow> Inl (RequestException e)
      | Returns response \<Rightarrow>
          (case raise_for_status response of
             Inl e \<Rightarrow> Inl e
           | Inr u \<Rightarrow>
               (case response_json response of
                  Inl e \<Rightarrow> Inl e
                | Inr data \<Rightarrow>
                    (case py_get_default data ''data'' (JList []) of
                       Inl e \<Rightarrow> Inl e
                     | Inr messages \<Rightarrow> get_messages_filter messages metadata_filters))))"

text \<open>
  The handler \<^verbatim>\<open>except requests.exceptions.RequestException as e\<close> prints the
  exception, then the status and the body \<^verbatim>\<open>if hasattr(e, 'response') and e.response\<close>.
  Every \<^verbatim>\<open>RequestException\<close> has the attribute; the truth value of a
  \<^verbatim>\<open>requests.Response\<close> is its \<^verbatim>\<open>ok\<close>, which is false for the statuses 400 to 599
  (\<^verbatim>\<open>Response.__bool__\<close> returns \<^verbatim>\<open>self.ok\<close>).
\<close>

definition response_truthy :: "response option \<Rightarrow> bool" where
  "response_truthy r = (case r of None \<Rightarrow> False | Some resp \<Rightarrow> response_ok resp)"

text \<open>
  The local variables \<^verbatim>\<open>url\<close> and \<^verbatim>\<open>params\<close> of \<^verbatim>\<open>get_messages\<close>:
  \<^verbatim>\<open>
    url = f"{self.base_url}/threads/{thread_id}/messages"
    params = {"limit": min(100, max(1, limit)), "order": order}
  \<close>
\<close>

definition messages_url :: "client \<Rightarrow> string \<Rightarrow> string" where
  "messages_url self thread_id = base_url self @ ''/threads/'' @ thread_id @ ''/messages''"

definition request_params :: "int \<Rightarrow> string \<Rightarrow> params" where
  "request_params limit order_by = \<lparr>param_limit = min 100 (max 1 limit), param_order = order_by\<rparr>"

definition get_messages ::
  "client \<Rightarrow> (string \<Rightarrow> (string \<times> string) list \<Rightarrow> params \<Rightarrow> get_outcome) \<Rightarrow>
   string \<Rightarrow> (string \<times> string) list option \<Rightarrow> int \<Rightarrow> string \<Rightarrow> get_messages_result" where
  "get_messages self requests_get thread_id metadata_filters limit order_by =
     (let url = messages_url self thread_id;
          params = request_params limit order_by;
          request = \<lparr>req_url = url, req_headers = headers self, req_params = params\<rparr>
      in case get_messages_try (requests_get url (headers self) params) metadata_filters of
           Inl (RequestException e) \<Rightarrow>
             \<lparr>sent = request,
              printed = ErrorRetrievingMessages e #
                (if response_truthy (exc_response e)
                 then (case exc_response e of
                         Some r \<Rightarrow> [ResponseStatus (status_code r), ResponseBody (resp_text r)]
                       | None \<Rightarrow> [])
                 else []),
              returned = Inr (JList [])\<rparr>
         | Inl e \<Rightarrow> \<lparr>sent = request, printed = [], returned = Inl e\<rparr>
         | Inr messages \<Rightarrow> \<lparr>sent = request, printed = [], returned = Inr messages\<rparr>)"

section \<open>The polling loop of the conversation driver (thread\_demo.py)\<close>

text \<open>
  \<^verbatim>\<open>openai.beta.threads.runs.retrieve\<close> is a parameter: the result of its \<open>n\<close>-th call
  for the thread and the run, a run or an exception of the API client. The world records
  the number of calls, the lines printed and the seconds slept. The loop has no bound, so
  it is a partial function: \<open>None\<close> is the loop that never ends.
\<close>

record run =
  run_id :: string
  status :: string

record world =
  calls :: nat
  lines :: "string list"
  slept :: nat

partial_function (option) wait_for_run_completion ::
  "(string \<Rightarrow> string \<Rightarrow> nat \<Rightarrow> py_error + run) \<Rightarrow> string \<Rightarrow> string \<Rightarrow> world \<Rightarrow>
   ((py_error + run) \<times> world) option" where
  "wait_for_run_completion retrieve thread_id rid w =
     (case retrieve thread_id rid (calls w) of
        Inl e \<Rightarrow> Some (Inl e, w\<lparr>calls := calls w + 1\<rparr>)
      | Inr r \<Rightarrow>
          if status r = ''completed'' then Some (Inr r, w\<lparr>calls := calls w + 1\<rparr>)
          else if status r \<in> set [''failed'', ''cancelled'', ''expired'']
          then Some (Inl (Exception (''Run ended with status: '' @ status r)),
                     w\<lparr>calls := calls w + 1\<rparr>)
          else wait_for_run_completion retrieve thread_id rid
                 (w\<lparr>calls := calls w + 1,
                    lines := lines w @ [''Waiting for run to complete. Current status: '' @ status r],
                    slept := slept w + 2\<rparr>))"

section \<open>Predicates of the specification\<close>

subsection \<open>Timestamp filter\<close>

text \<open>
  The messages of the data model: a dictionary whose \<^verbatim>\<open>created_at\<close> is an integer, is
  \<^verbatim>\<open>None\<close> or is missing. A message is in the range when its \<^verbatim>\<open>created_at\<close> is an
  integer between the two bounds.
\<close>

fun created_at_ok :: "json \<Rightarrow> bool" where
  "created_at_ok (JObj kvs) =
     (case map_of kvs ''created_at'' of
        None \<Rightarrow> True | Some JNull \<Rightarrow> True | Some (JInt t) \<Rightarrow> True | Some _ \<Rightarrow> False)"
| "created_at_ok _ = False"

fun created_in_range :: "int \<Rightarrow> int \<Rightarrow> json \<Rightarrow> bool" where
  "created_in_range s e (JObj kvs) =
     (case map_of kvs ''created_at'' of Some (JInt t) \<Rightarrow> s \<le> t \<and> t \<le> e | _ \<Rightarrow> False)"
| "created_in_range s e _ = False"

fun created_at_missing :: "json \<Rightarrow> bool" where
  "created_at_missing (JObj kvs) =
     (case map_of kvs ''created_at'' of None \<Rightarrow> True | Some JNull \<Rightarrow> True | Some _ \<Rightarrow> False)"
| "created_at_missing _ = False"

fun has_created_at :: "json \<Rightarrow> bool" where
  "has_created_at (JObj kvs) =
     (case map_of kvs ''created_at'' of Some (JInt t) \<Rightarrow> True | _ \<Rightarrow> False)"
| "has_created_at _ = False"

text \<open>
  The bounds cover all time for a list when \<open>start\<close> is at most, and \<open>end\<close> at least,
  every timestamp that a message of the list carries.
\<close>

fun bounds_cover :: "int \<Rightarrow> int \<Rightarrow> json \<Rightarrow> bool" where
  "bounds_cover s e (JObj kvs) =
     (case map_of kvs ''created_at'' of Some (JInt t) \<Rightarrow> s \<le> t \<and> t \<le> e | _ \<Rightarrow> True)"
| "bounds_cover s e _ = True"

text \<open>
  The parsing of a bound as the specification words it: only a final \<^verbatim>\<open>Z\<close> is replaced
  by \<^verbatim>\<open>+00:00\<close> before the ISO-8601 parse. It is compared with \<open>parse_timestamp\<close>, the
  function of the source.
\<close>

definition replace_Z_suffix :: "string \<Rightarrow> string" where
  "replace_Z_suffix s =
     (if s \<noteq> [] \<and> last s = CHR ''Z'' then butlast s @ ''+00:00'' else s)"

definition parse_timestamp_Z_suffix ::
  "(string \<Rightarrow> int option) \<Rightarrow> (string \<Rightarrow> 'dt option) \<Rightarrow> ('dt \<Rightarrow> py_error + int) \<Rightarrow>
   string \<Rightarrow> py_error + int" where
  "parse_timestamp_Z_suffix int_of_str fromisoformat timestamp timestamp_str =
     (case int_of_str timestamp_str of
        Some n \<Rightarrow> Inr n
      | None \<Rightarrow>
          (case fromisoformat (replace_Z_suffix timestamp_str) of
             None \<Rightarrow> Inl ValueError
           | Some dt \<Rightarrow> timestamp dt))"

subsection \<open>Metadata filter\<close>

text \<open>
  The messages of the data model: a dictionary whose \<^verbatim>\<open>metadata\<close> is a dictionary or is
  missing. A message satisfies the constraints when its metadata holds, for every
  constraint, the key with the required string as value.
\<close>

fun metadata_ok :: "json \<Rightarrow> bool" where
  "metadata_ok (JObj kvs) =
     (case map_of kvs ''metadata'' of
        None \<Rightarrow> True | Some (JObj md) \<Rightarrow> True | Some _ \<Rightarrow> False)"
| "metadata_ok _ = False"

fun metadata_of :: "json \<Rightarrow> (string \<times> json) list" where
  "metadata_of (JObj kvs) =
     (case map_of kvs ''metadata'' of Some (JObj md) \<Rightarrow> md | _ \<Rightarrow> [])"
| "metadata_of _ = []"

definition satisfies :: "(string \<times> string) list \<Rightarrow> json \<Rightarrow> bool" where
  "satisfies F m = (\<forall>(k, v) \<in> set F. map_of (metadata_of m) k = Some (JStr v))"

text \<open>
  The request delivers a list of messages when \<^verbatim>\<open>requests.get\<close> returns a response
  that \<^verbatim>\<open>raise_for_status\<close> accepts and whose JSON body is a dictionary with the list
  under \<^verbatim>\<open>data\<close>.
\<close>

definition delivers :: "get_outcome \<Rightarrow> json list \<Rightarrow> bool" where
  "delivers outcome msgs =
     (case outcome of
        Raises e \<Rightarrow> False
      | Returns r \<Rightarrow>
          response_ok r \<and>
          (case resp_json r of
             Some (JObj kvs) \<Rightarrow> map_of kvs ''data'' = Some (JList msgs)
           | _ \<Rightarrow> False))"

subsection \<open>Polling loop\<close>

text \<open>
  A poll is pending when \<^verbatim>\<open>retrieve\<close> returns a run whose status is none of
  \<^verbatim>\<open>completed\<close>, \<^verbatim>\<open>failed\<close>, \<^verbatim>\<open>cancelled\<close>, \<^verbatim>\<open>expired\<close>. After \<open>k\<close> pending polls
  the loop has made \<open>k\<close> calls, printed \<open>k\<close> lines and slept \<open>2 * k\<close> seconds.
\<close>

definition pending ::
  "(string \<Rightarrow> string \<Rightarrow> nat \<Rightarrow> py_error + run) \<Rightarrow> string \<Rightarrow> string \<Rightarrow> nat \<Rightarrow> bool" where
  "pending retrieve thread_id rid n =
     (case retrieve thread_id rid n of
        Inl e \<Rightarrow> False
      | Inr r \<Rightarrow>
          status r \<noteq> ''completed'' \<and> status r \<notin> set [''failed'', ''cancelled'', ''expired''])"

definition waiting_line ::
  "(string \<Rightarrow> string \<Rightarrow> nat \<Rightarrow> py_error + run) \<Rightarrow> string \<Rightarrow> string \<Rightarrow> nat \<Rightarrow> string" where
  "waiting_line retrieve thread_id rid n =
     (case retrieve thread_id rid n of
        Inl e \<Rightarrow> []
      | Inr r \<Rightarrow> ''Waiting for run to complete. Current status: '' @ status r)"

definition after_polls ::
  "(string \<Rightarrow> string \<Rightarrow> nat \<Rightarrow> py_error + run) \<Rightarrow> string \<Rightarrow> string \<Rightarrow> world \<Rightarrow> nat \<Rightarrow> world" where
  "after_polls retrieve thread_id rid w k =
     w\<lparr>calls := calls w + k,
       lines := lines w @ map (waiting_line retrieve thread_id rid) [calls w ..< calls w + k],
       slept := slept w + 2 * k\<rparr>"

section \<open>Properties of the timestamp filter\<close>

lemma filter_messages_loop_append:
  "filter_messages_loop (xs @ ys) s e acc =
     (case filter_messages_loop xs s e acc of
        Inl err \<Rightarrow> Inl err
      | Inr acc' \<Rightarrow> filter_messages_loop ys s e acc')"
  by (induction xs arbitrary: acc) (auto split: sum.splits bool.splits)

lemma filter_messages_loop_filter:
  "list_all created_at_ok ms \<Longrightarrow>
   filter_messages_loop ms s e acc = Inr (acc @ filter (created_in_range s e) ms)"
proof (induction ms arbitrary: acc)
  case Nil
  then show ?case by simp
next
  case (Cons m ms)
  then obtain kvs where m: "m = JObj kvs" by (cases m) auto
  from Cons.prems have ok: "list_all created_at_ok ms" by simp
  show ?case using Cons.prems Cons.IH[OF ok] unfolding m
    by (auto simp: py_get_def chained_le_def split: option.splits json.splits)
qed

lemma filter_messages_loop_missing:
  "created_at_missing m \<Longrightarrow>
   filter_messages_loop (m # ms) s e acc = filter_messages_loop ms s e acc"
  by (cases m) (auto simp: py_get_def split: option.splits json.splits)

lemma filter_messages_loop_members:
  "filter_messages_loop ms s e acc = Inr r \<Longrightarrow> x \<in> set r \<Longrightarrow>
   x \<in> set acc \<or> \<not> created_at_missing x"
proof (induction ms arbitrary: acc)
  case Nil
  then show ?case by simp
next
  case (Cons m ms)
  show ?case
  proof (cases "created_at_missing m")
    case True
    with Cons.prems Cons.IH[of acc] show ?thesis
      by (simp only: filter_messages_loop_missing)
  next
    case False
    with Cons.prems Cons.IH show ?thesis
      by (fastforce split: sum.splits if_splits bool.splits)
  qed
qed

text \<open>
  C1. On a list of messages of the data model, \<^verbatim>\<open>filter_messages\<close> returns the messages
  whose \<^verbatim>\<open>created_at\<close> is present and lies between \<open>start\<close> and \<open>end\<close>, both bounds
  included, in the order of the input: the result is the \<open>filter\<close> of the input list.
\<close>

theorem filter_messages_range:
  assumes "list_all created_at_ok msgs"
  shows "filter_messages (JList msgs) s e = Inr (filter (created_in_range s e) msgs)"
  using filter_messages_loop_filter[OF assms, of s e "[]"]
  by (simp add: filter_messages_def)

text \<open>The example of the specification: the bounds 150 and 300 keep 200 and 300.\<close>

theorem filter_messages_range_witness:
  "list_all created_at_ok
     [JObj [(''created_at'', JInt 100)], JObj [(''created_at'', JInt 200)],
      JObj [(''created_at'', JInt 300)]]
   \<and> filter_messages
       (JList [JObj [(''created_at'', JInt 100)], JObj [(''created_at'', JInt 200)],
               JObj [(''created_at'', JInt 300)]]) 150 300
     = Inr [JObj [(''created_at'', JInt 200)], JObj [(''created_at'', JInt 300)]]"
  using filter_messages_range
    [of "[JObj [(''created_at'', JInt 100)], JObj [(''created_at'', JInt 200)],
          JObj [(''created_at'', JInt 300)]]" 150 300]
  by simp

text \<open>
  C2. A message whose \<^verbatim>\<open>created_at\<close> is missing or \<^verbatim>\<open>None\<close> changes nothing, whatever
  the bounds: the filter behaves on a list with the message as on the list without it, so
  the message raises no error, and no list that the filter returns contains the message.
\<close>

theorem filter_messages_skips_missing:
  assumes "created_at_missing m"
  shows "filter_messages (JList (pre @ m # post)) s e = filter_messages (JList (pre @ post)) s e
    \<and> filter_messages (JList [m]) s e = Inr []
    \<and> (\<forall>msgs r. filter_messages (JList msgs) s e = Inr r \<longrightarrow> m \<notin> set r)"
proof (intro conjI)
  show "filter_messages (JList (pre @ m # post)) s e = filter_messages (JList (pre @ post)) s e"
    using assms
    by (simp add: filter_messages_def filter_messages_loop_append filter_messages_loop_missing
        del: filter_messages_loop.simps split: sum.splits)
  show "filter_messages (JList [m]) s e = Inr []"
    using filter_messages_loop_missing[OF assms, of "[]" s e "[]"]
    by (simp add: filter_messages_def del: filter_messages_loop.simps(2))
  show "\<forall>msgs r. filter_messages (JList msgs) s e = Inr r \<longrightarrow> m \<notin> set r"
    using assms filter_messages_loop_members[of _ s e "[]" _ m]
    by (auto simp: filter_messages_def)
qed

theorem filter_messages_skips_missing_witness:
  "created_at_missing (JObj [(''id'', JStr ''msg_2''), (''created_at'', JNull)])
   \<and> filter_messages
       (JList [JObj [(''created_at'', JInt 5)],
               JObj [(''id'', JStr ''msg_2''), (''created_at'', JNull)],
               JObj [(''created_at'', JInt 7)]]) 0 10
     = Inr [JObj [(''created_at'', JInt 5)], JObj [(''created_at'', JInt 7)]]
   \<and> filter_messages (JList [JObj [(''id'', JStr ''msg_2''), (''created_at'', JNull)]]) 0 10
     = Inr []"
  using filter_messages_skips_missing
    [of "JObj [(''id'', JStr ''msg_2''), (''created_at'', JNull)]"
        "[JObj [(''created_at'', JInt 5)]]" "[JObj [(''created_at'', JInt 7)]]" 0 10]
  by (simp add: filter_messages_def py_get_def chained_le_def)

text \<open>
  C6, as the specification states it, fails: bounds that cover every timestamp of the list
  do not bring back a message that has no \<^verbatim>\<open>created_at\<close>.
\<close>

theorem filter_roundtrip_counterexample:
  "list_all (bounds_cover 0 1000)
     [JObj [(''id'', JStr ''msg_1''), (''created_at'', JInt 100)], JObj [(''id'', JStr ''msg_2'')]]
   \<and> filter_messages
       (JList [JObj [(''id'', JStr ''msg_1''), (''created_at'', JInt 100)],
               JObj [(''id'', JStr ''msg_2'')]]) 0 1000
     = Inr [JObj [(''id'', JStr ''msg_1''), (''created_at'', JInt 100)]]
   \<and> filter_messages
       (JList [JObj [(''id'', JStr ''msg_1''), (''created_at'', JInt 100)],
               JObj [(''id'', JStr ''msg_2'')]]) 0 1000
     \<noteq> Inr [JObj [(''id'', JStr ''msg_1''), (''created_at'', JInt 100)],
             JObj [(''id'', JStr ''msg_2'')]]"
  by (simp add: filter_messages_def py_get_def chained_le_def)

text \<open>
  C6, amended. With \<^verbatim>\<open>None\<close> or the empty dictionary as constraints the metadata filter
  returns the messages as they are; and when every message has an integer
  \<^verbatim>\<open>created_at\<close> and the bounds cover them all, the timestamp filter returns the list as
  it is, in its order.
\<close>

theorem filter_roundtrip:
  "get_messages_filter (JList msgs) (Some []) = Inr (JList msgs)
   \<and> get_messages_filter (JList msgs) None = Inr (JList msgs)
   \<and> (list_all has_created_at msgs \<and> list_all (bounds_cover s e) msgs \<longrightarrow>
        filter_messages (JList msgs) s e = Inr msgs)"
proof (intro conjI impI)
  assume a: "list_all has_created_at msgs \<and> list_all (bounds_cover s e) msgs"
  have "has_created_at m \<Longrightarrow> bounds_cover s e m \<Longrightarrow>
      created_at_ok m \<and> created_in_range s e m" for m
    by (cases m) (auto split: option.splits json.splits)
  with a have ok: "list_all created_at_ok msgs"
    and every: "\<forall>m \<in> set msgs. created_in_range s e m"
    by (auto simp: list_all_iff)
  from filter_messages_loop_filter[OF ok, of s e "[]"] every
  show "filter_messages (JList msgs) s e = Inr msgs"
    by (simp add: filter_messages_def)
qed (simp_all add: get_messages_filter_def)

theorem filter_roundtrip_witness:
  "list_all has_created_at [JObj [(''created_at'', JInt 100)], JObj [(''created_at'', JInt 300)]]
   \<and> list_all (bounds_cover 100 300)
        [JObj [(''created_at'', JInt 100)], JObj [(''created_at'', JInt 300)]]
   \<and> filter_messages
        (JList [JObj [(''created_at'', JInt 100)], JObj [(''created_at'', JInt 300)]]) 100 300
      = Inr [JObj [(''created_at'', JInt 100)], JObj [(''created_at'', JInt 300)]]
   \<and> get_messages_filter
        (JList [JObj [(''created_at'', JInt 100)], JObj [(''created_at'', JInt 300)]]) (Some [])
      = Inr (JList [JObj [(''created_at'', JInt 100)], JObj [(''created_at'', JInt 300)]])"
  using filter_roundtrip
    [of "[JObj [(''created_at'', JInt 100)], JObj [(''created_at'', JInt 300)]]" 100 300]
  by simp

section \<open>Properties of the parsing of a bound\<close>

lemma str_replace_char:
  "str_replace s [c] new = concat (map (\<lambda>x. if x = c then new else [x]) s)"
proof (induction s)
  case Nil
  show ?case by (subst str_replace.simps) simp
next
  case (Cons x s)
  show ?case using Cons.IH by (subst str_replace.simps) auto
qed

lemma str_replace_suffix:
  "c \<notin> set t \<Longrightarrow> str_replace (t @ [c]) [c] new = t @ new"
  by (induction t) (auto simp: str_replace_char)

lemma main_parse_error:
  "parse_timestamp i f t (arg_start args) = Inl err \<Longrightarrow>
   main i f t load_file requests_get environ_key args = Inl err"
  "parse_timestamp i f t (arg_start args) = Inr a \<Longrightarrow>
   parse_timestamp i f t (arg_end args) = Inl err \<Longrightarrow>
   main i f t load_file requests_get environ_key args = Inl err"
  by (simp_all add: main_def)

lemma concat_map_unchanged:
  "c \<notin> set s \<Longrightarrow> concat (map (\<lambda>x. if x = c then new else [x]) s) = s"
  by (induction s) auto

lemma str_replace_Z_suffix:
  assumes "CHR ''Z'' \<notin> set (butlast s)"
  shows "str_replace s ''Z'' ''+00:00'' = replace_Z_suffix s"
proof (cases s rule: rev_cases)
  case Nil
  then show ?thesis by (simp add: str_replace_char replace_Z_suffix_def)
next
  case (snoc t c)
  with assms have t: "CHR ''Z'' \<notin> set t" by simp
  show ?thesis
  proof (cases "c = CHR ''Z''")
    case True
    with snoc str_replace_suffix[OF t, of "''+00:00''"] show ?thesis
      by (simp add: replace_Z_suffix_def)
  next
    case False
    with t snoc have "CHR ''Z'' \<notin> set s" by simp
    from concat_map_unchanged[OF this, of "''+00:00''"] False snoc show ?thesis
      by (simp add: str_replace_char replace_Z_suffix_def)
  qed
qed

text \<open>
  On a string that has no \<^verbatim>\<open>Z\<close> before its last character, \<^verbatim>\<open>parse_timestamp\<close> is the
  parsing that the specification words, whatever the library: the integer when
  \<^verbatim>\<open>int\<close> accepts the string, otherwise the ISO-8601 parse after a final \<^verbatim>\<open>Z\<close> has
  become \<^verbatim>\<open>+00:00\<close>, otherwise \<^verbatim>\<open>ValueError\<close>.
\<close>

theorem parse_timestamp_final_Z:
  assumes "CHR ''Z'' \<notin> set (butlast s)"
  shows "parse_timestamp int_of_str fromisoformat timestamp s =
     parse_timestamp_Z_suffix int_of_str fromisoformat timestamp s"
  by (simp add: parse_timestamp_def parse_timestamp_Z_suffix_def str_replace_Z_suffix[OF assms]
      split: option.splits)

theorem parse_timestamp_final_Z_witness:
  "CHR ''Z'' \<notin> set (butlast ''2023-04-01T12:00:00Z'')
   \<and> parse_timestamp
     (\<lambda>s. if s = ''1680307200'' then Some 1680307200 else None)
     (\<lambda>s. if s = ''2023-04-01T12:00:00+00:00'' then Some (1680350400::int) else None) Inr
     ''2023-04-01T12:00:00Z'' = Inr 1680350400
   \<and> parse_timestamp_Z_suffix
     (\<lambda>s. if s = ''1680307200'' then Some 1680307200 else None)
     (\<lambda>s. if s = ''2023-04-01T12:00:00+00:00'' then Some (1680350400::int) else None) Inr
     ''2023-04-01T12:00:00Z'' = Inr 1680350400"
  using parse_timestamp_final_Z
    [of "''2023-04-01T12:00:00Z''"
        "\<lambda>s. if s = ''1680307200'' then Some 1680307200 else None"
        "\<lambda>s. if s = ''2023-04-01T12:00:00+00:00'' then Some (1680350400::int) else None" Inr]
  by (simp add: parse_timestamp_Z_suffix_def replace_Z_suffix_def)

text \<open>
  \<^verbatim>\<open>main\<close> parses the two bounds outside any \<^verbatim>\<open>try\<close>: a \<^verbatim>\<open>ValueError\<close> of
  \<^verbatim>\<open>parse_timestamp\<close> on the start, or on the end once the start is parsed, is the
  outcome of \<^verbatim>\<open>main\<close>, before any message is read.
\<close>

theorem main_propagates_value_error:
  assumes "parse_timestamp int_of_str fromisoformat timestamp (arg_start args) = Inl ValueError
        \<or> (\<exists>a. parse_timestamp int_of_str fromisoformat timestamp (arg_start args) = Inr a)
          \<and> parse_timestamp int_of_str fromisoformat timestamp (arg_end args) = Inl ValueError"
  shows "main int_of_str fromisoformat timestamp load_file requests_get environ_key args
            = Inl ValueError"
  using assms main_parse_error[of int_of_str fromisoformat timestamp args] by blast

theorem main_propagates_value_error_witness:
  "parse_timestamp
     (\<lambda>s. if s = ''1680307200'' then Some 1680307200 else None)
     (\<lambda>s. if s = ''2023-04-01T12:00:00+00:00'' then Some (1680350400::int) else None) Inr
     ''yesterday'' = Inl ValueError
   \<and> main
     (\<lambda>s. if s = ''1680307200'' then Some 1680307200 else None)
     (\<lambda>s. if s = ''2023-04-01T12:00:00+00:00'' then Some (1680350400::int) else None) Inr
     (\<lambda>path. Inr (JList [])) (\<lambda>url hs. Raises JSONDecodeError) None
     \<lparr>arg_start = ''yesterday'', arg_end = ''1680307200'', arg_input = Some ''messages.json'',
      arg_output = None, arg_api_key = None\<rparr> = Inl ValueError"
  using main_propagates_value_error
    [of "\<lambda>s. if s = ''1680307200'' then Some 1680307200 else None"
        "\<lambda>s. if s = ''2023-04-01T12:00:00+00:00'' then Some (1680350400::int) else None"
        Inr
        "\<lparr>arg_start = ''yesterday'', arg_end = ''1680307200'', arg_input = Some ''messages.json'',
          arg_output = None, arg_api_key = None\<rparr>"
        "\<lambda>path. Inr (JList [])" "\<lambda>url hs. Raises JSONDecodeError" None]
  by (simp add: parse_timestamp_def str_replace_char)

text \<open>
  C7 at the string \<^verbatim>\<open>2023-04-01T12:00:00Z:30\<close>, which is neither a decimal integer nor an
  ISO-8601 date (its \<^verbatim>\<open>Z\<close> is not at the end): the claim, like the docstring of
  \<^verbatim>\<open>parse_timestamp\<close>, gives a \<^verbatim>\<open>ValueError\<close>. \<^verbatim>\<open>replace('Z', '+00:00')\<close> replaces the
  inner \<^verbatim>\<open>Z\<close> too and hands \<^verbatim>\<open>2023-04-01T12:00:00+00:00:30\<close> to the parser, a date with
  the offset of thirty seconds. The library below does what CPython does on the strings
  involved: \<^verbatim>\<open>int\<close> rejects them, \<^verbatim>\<open>fromisoformat\<close> rejects the input and accepts the
  replaced string, of the epoch second 1680350370. The source returns that second; the
  parsing that the specification words raises \<^verbatim>\<open>ValueError\<close>.
\<close>

theorem parse_timestamp_accepts_inner_Z:
  "str_replace ''2023-04-01T12:00:00Z:30'' ''Z'' ''+00:00'' = ''2023-04-01T12:00:00+00:00:30''
   \<and> parse_timestamp (\<lambda>s. None)
     (\<lambda>s. if s = ''2023-04-01T12:00:00+00:00:30'' then Some (1680350370::int) else None) Inr
     ''2023-04-01T12:00:00Z:30'' = Inr 1680350370
   \<and> parse_timestamp_Z_suffix (\<lambda>s. None)
     (\<lambda>s. if s = ''2023-04-01T12:00:00+00:00:30'' then Some (1680350370::int) else None) Inr
     ''2023-04-01T12:00:00Z:30'' = Inl ValueError"
  by (simp add: parse_timestamp_def parse_timestamp_Z_suffix_def replace_Z_suffix_def
      str_replace_char)

section \<open>Properties of the metadata filter\<close>

lemma matches_dict:
  "matches_metadata_filters (JObj md) F = Inr (\<forall>(k, v) \<in> set F. map_of md k = Some (JStr v))"
proof (induction F)
  case Nil
  then show ?case by simp
next
  case (Cons kv F)
  obtain k v where kv: "kv = (k, v)" by (cases kv)
  show ?case
  proof (cases "map_of md k")
    case None
    then have "k \<notin> fst ` set md" by (simp add: map_of_eq_None_iff)
    with None show ?thesis by (simp add: kv)
  next
    case (Some w)
    then have "k \<in> fst ` set md" by (metis map_of_eq_None_iff option.distinct(1))
    with Some Cons.IH show ?thesis by (simp add: kv)
  qed
qed

lemma get_messages_loop_filter:
  "list_all metadata_ok ms \<Longrightarrow>
   get_messages_loop ms F acc = Inr (acc @ filter (satisfies F) ms)"
proof (induction ms arbitrary: acc)
  case Nil
  then show ?case by simp
next
  case (Cons m ms)
  then obtain kvs where m: "m = JObj kvs" by (cases m) auto
  from Cons.prems have ok: "list_all metadata_ok ms" by simp
  show ?case using Cons.prems Cons.IH[OF ok] unfolding m
    by (auto simp: matches_dict satisfies_def split: option.splits json.splits)
qed

lemma matches_mono:
  "set F \<subseteq> set F' \<Longrightarrow> matches_metadata_filters md F' = Inr True \<Longrightarrow>
   matches_metadata_filters md F = Inr True"
proof -
  have every: "matches_metadata_filters md G = Inr True \<Longrightarrow> (k, v) \<in> set G \<Longrightarrow>
      py_contains md k = Inr True \<and> py_getitem md k = Inr (JStr v)" for G k v
    by (induction G) (auto split: sum.splits if_splits)
  have conv: "\<forall>(k, v) \<in> set G. py_contains md k = Inr True \<and> py_getitem md k = Inr (JStr v)
      \<Longrightarrow> matches_metadata_filters md G = Inr True" for G
    by (induction G) auto
  assume "set F \<subseteq> set F'" "matches_metadata_filters md F' = Inr True"
  then show ?thesis using every[of F'] conv[of F] by blast
qed

lemma get_messages_loop_no_request_exception:
  "get_messages_loop ms F acc \<noteq> Inl (RequestException e)"
proof -
  have c: "py_contains md k \<noteq> Inl (RequestException e)" for md k
    by (cases md) auto
  have g: "py_getitem md k \<noteq> Inl (RequestException e)" for md k
    by (cases md) (auto split: option.splits)
  have m: "matches_metadata_filters md F \<noteq> Inl (RequestException e)" for md
    using c g by (induction F) (auto split: sum.splits if_splits)
  have d: "py_get_default x k v \<noteq> Inl (RequestException e)" for x k v
    by (cases x) auto
  show ?thesis using m d
    by (induction ms arbitrary: acc) (auto split: sum.splits)
qed

lemma get_messages_filter_no_request_exception:
  "get_messages_filter messages F \<noteq> Inl (RequestException e)"
proof -
  have "py_iter messages \<noteq> Inl (RequestException e)" by (cases messages) auto
  then show ?thesis using get_messages_loop_no_request_exception
    by (auto simp: get_messages_filter_def split: option.splits list.splits sum.splits)
qed

lemma get_messages_delivers:
  assumes "delivers (requests_get (messages_url self thread_id) (headers self)
             (request_params limit order_by)) msgs"
  shows "get_messages self requests_get thread_id F limit order_by =
    \<lparr>sent = \<lparr>req_url = messages_url self thread_id, req_headers = headers self,
              req_params = request_params limit order_by\<rparr>,
     printed = [],
     returned = get_messages_filter (JList msgs) F\<rparr>"
proof -
  from assms obtain r kvs where
    r: "requests_get (messages_url self thread_id) (headers self)
          (request_params limit order_by) = Returns r"
    and ok: "response_ok r" and j: "resp_json r = Some (JObj kvs)"
    and d: "map_of kvs ''data'' = Some (JList msgs)"
    by (auto simp: delivers_def split: get_outcome.splits option.splits json.splits)
  have "get_messages_try (Returns r) F = get_messages_filter (JList msgs) F"
    using ok j d by (simp add: get_messages_try_def raise_for_status_def response_json_def)
  then show ?thesis using r get_messages_filter_no_request_exception[of "JList msgs" F]
    by (cases "get_messages_filter (JList msgs) F")
       (auto simp: get_messages_def Let_def split: py_error.splits)
qed

lemma get_messages_filter_ok:
  "list_all metadata_ok msgs \<Longrightarrow>
   get_messages_filter (JList msgs) (Some F) = Inr (JList (filter (satisfies F) msgs))"
proof (cases F)
  case Nil
  then show ?thesis by (simp add: get_messages_filter_def satisfies_def)
next
  case (Cons a G)
  assume "list_all metadata_ok msgs"
  from get_messages_loop_filter[OF this, of F "[]"] Cons show ?thesis
    by (simp add: get_messages_filter_def)
qed

text \<open>
  C3. When the request delivers messages of the data model and the constraints are not
  empty, \<^verbatim>\<open>get_messages\<close> returns the messages whose metadata holds, for every constraint,
  the key with exactly the required string as value, in the order of the input; a message
  whose metadata lacks a key of the constraints is left out.
\<close>

theorem get_messages_metadata_match:
  assumes "delivers (requests_get (messages_url self thread_id) (headers self)
             (request_params limit order_by)) msgs"
    and "F \<noteq> []" and "list_all metadata_ok msgs"
  shows "returned (get_messages self requests_get thread_id (Some F) limit order_by) =
    Inr (JList (filter (\<lambda>m. \<forall>(k, v) \<in> set F. map_of (metadata_of m) k = Some (JStr v)) msgs))"
proof -
  have "satisfies F = (\<lambda>m. \<forall>(k, v) \<in> set F. map_of (metadata_of m) k = Some (JStr v))"
    by (simp add: fun_eq_iff satisfies_def)
  with get_messages_filter_ok[OF assms(3), of F] show ?thesis
    by (simp add: get_messages_delivers[where requests_get = requests_get, OF assms(1)])
qed

text \<open>
  The example of the specification: the constraint \<^verbatim>\<open>user_email = a@b.com\<close> keeps the
  first of the two messages.
\<close>

theorem get_messages_metadata_match_witness:
  "delivers
     ((\<lambda>url hs ps. Returns \<lparr>status_code = 200, resp_text = [],
         resp_json = Some (JObj [(''data'', JList
           [JObj [(''metadata'', JObj [(''user_email'', JStr ''a@b.com'')])],
            JObj [(''metadata'', JObj [])]])])\<rparr>)
      (messages_url \<lparr>api_key = ''sk'', base_url = ''https://api.openai.com/v1'', headers = []\<rparr>
         ''thread_1'')
      (headers \<lparr>api_key = ''sk'', base_url = ''https://api.openai.com/v1'', headers = []\<rparr>)
      (request_params 100 ''desc''))
     [JObj [(''metadata'', JObj [(''user_email'', JStr ''a@b.com'')])],
      JObj [(''metadata'', JObj [])]]
   \<and> [(''user_email'', ''a@b.com'')] \<noteq> []
   \<and> list_all metadata_ok
       [JObj [(''metadata'', JObj [(''user_email'', JStr ''a@b.com'')])],
        JObj [(''metadata'', JObj [])]]
   \<and> returned (get_messages
        \<lparr>api_key = ''sk'', base_url = ''https://api.openai.com/v1'', headers = []\<rparr>
        (\<lambda>url hs ps. Returns \<lparr>status_code = 200, resp_text = [],
           resp_json = Some (JObj [(''data'', JList
             [JObj [(''metadata'', JObj [(''user_email'', JStr ''a@b.com'')])],
              JObj [(''metadata'', JObj [])]])])\<rparr>)
        ''thread_1'' (Some [(''user_email'', ''a@b.com'')]) 100 ''desc'')
     = Inr (JList [JObj [(''metadata'', JObj [(''user_email'', JStr ''a@b.com'')])]])"
  using get_messages_metadata_match
    [of "\<lambda>url hs ps. Returns \<lparr>status_code = 200, resp_text = [],
           resp_json = Some (JObj [(''data'', JList
             [JObj [(''metadata'', JObj [(''user_email'', JStr ''a@b.com'')])],
              JObj [(''metadata'', JObj [])]])])\<rparr>"
        "\<lparr>api_key = ''sk'', base_url = ''https://api.openai.com/v1'', headers = []\<rparr>"
        "''thread_1''" 100 "''desc''"
        "[JObj [(''metadata'', JObj [(''user_email'', JStr ''a@b.com'')])],
          JObj [(''metadata'', JObj [])]]"
        "[(''user_email'', ''a@b.com'')]"]
  by (simp add: delivers_def response_ok_def)

text \<open>
  C4. With the empty dictionary as constraints (and with \<^verbatim>\<open>None\<close>, the default),
  \<^verbatim>\<open>get_messages\<close> returns the list that the request delivers, unchanged and in its
  order.
\<close>

theorem get_messages_empty_filter_identity:
  assumes "delivers (requests_get (messages_url self thread_id) (headers self)
             (request_params limit order_by)) msgs"
  shows "returned (get_messages self requests_get thread_id (Some []) limit order_by)
      = Inr (JList msgs)
    \<and> returned (get_messages self requests_get thread_id None limit order_by)
      = Inr (JList msgs)"
  by (simp add: get_messages_delivers[where requests_get = requests_get, OF assms(1)]
      get_messages_filter_def)

theorem get_messages_empty_filter_identity_witness:
  "delivers
     ((\<lambda>url hs ps. Returns \<lparr>status_code = 200, resp_text = [],
         resp_json = Some (JObj [(''data'', JList
           [JObj [(''id'', JStr ''msg_2'')], JInt 7, JObj [(''id'', JStr ''msg_1'')]])])\<rparr>)
      (messages_url \<lparr>api_key = ''sk'', base_url = ''https://api.openai.com/v1'', headers = []\<rparr>
         ''thread_1'')
      (headers \<lparr>api_key = ''sk'', base_url = ''https://api.openai.com/v1'', headers = []\<rparr>)
      (request_params 100 ''desc''))
     [JObj [(''id'', JStr ''msg_2'')], JInt 7, JObj [(''id'', JStr ''msg_1'')]]
   \<and> returned (get_messages
        \<lparr>api_key = ''sk'', base_url = ''https://api.openai.com/v1'', headers = []\<rparr>
        (\<lambda>url hs ps. Returns \<lparr>status_code = 200, resp_text = [],
           resp_json = Some (JObj [(''data'', JList
             [JObj [(''id'', JStr ''msg_2'')], JInt 7, JObj [(''id'', JStr ''msg_1'')]])])\<rparr>)
        ''thread_1'' (Some []) 100 ''desc'')
     = Inr (JList [JObj [(''id'', JStr ''msg_2'')], JInt 7, JObj [(''id'', JStr ''msg_1'')]])"
  using get_messages_empty_filter_identity
    [of "\<lambda>url hs ps. Returns \<lparr>status_code = 200, resp_text = [],
           resp_json = Some (JObj [(''data'', JList
             [JObj [(''id'', JStr ''msg_2'')], JInt 7, JObj [(''id'', JStr ''msg_1'')]])])\<rparr>"
        "\<lparr>api_key = ''sk'', base_url = ''https://api.openai.com/v1'', headers = []\<rparr>"
        "''thread_1''" 100 "''desc''"
        "[JObj [(''id'', JStr ''msg_2'')], JInt 7, JObj [(''id'', JStr ''msg_1'')]]"]
  by (simp add: delivers_def response_ok_def)

lemma get_messages_loop_suffix:
  "get_messages_loop ms F acc = Inr r \<Longrightarrow> \<exists>r0. r = acc @ r0 \<and> subseq r0 ms"
proof (induction ms arbitrary: acc)
  case Nil
  then show ?case by simp
next
  case (Cons m ms)
  from Cons.prems consider
    "get_messages_loop ms F (acc @ [m]) = Inr r" | "get_messages_loop ms F acc = Inr r"
    by (auto split: sum.splits if_splits)
  then show ?case
  proof cases
    case 1
    from Cons.IH[OF 1] obtain r0 where "r = (acc @ [m]) @ r0" "subseq r0 ms" by blast
    then have "r = acc @ (m # r0) \<and> subseq (m # r0) (m # ms)" by simp
    then show ?thesis by blast
  next
    case 2
    from Cons.IH[OF 2] obtain r0 where "r = acc @ r0" "subseq r0 ms" by blast
    then have "r = acc @ r0 \<and> subseq r0 (m # ms)" by (simp add: list_emb_Cons)
    then show ?thesis by blast
  qed
qed

lemma get_messages_loop_mono:
  "set F \<subseteq> set F' \<Longrightarrow> get_messages_loop ms F' acc' = Inr r' \<Longrightarrow>
   get_messages_loop ms F acc = Inr r \<Longrightarrow> subseq acc' acc \<Longrightarrow> subseq r' r"
proof (induction ms arbitrary: acc acc')
  case Nil
  then show ?case by simp
next
  case (Cons m ms)
  from Cons.prems(2) obtain md b' where
    md: "py_get_default m ''metadata'' (JObj []) = Inr md"
    and b': "matches_metadata_filters md F' = Inr b'"
    and l': "get_messages_loop ms F' (if b' then acc' @ [m] else acc') = Inr r'"
    by (auto split: sum.splits if_splits)
  from Cons.prems(3) md obtain b where b: "matches_metadata_filters md F = Inr b"
    and l: "get_messages_loop ms F (if b then acc @ [m] else acc) = Inr r"
    by (auto split: sum.splits if_splits)
  have imp: "b' \<Longrightarrow> b" using matches_mono[OF Cons.prems(1), of md] b b' by auto
  have "subseq (if b' then acc' @ [m] else acc') (if b then acc @ [m] else acc)"
    using imp Cons.prems(4)
    by (auto intro: list_emb_append_mono subseq_rev_drop_many simp: list_emb_append2)
  from Cons.IH[OF Cons.prems(1) l' l this] show ?case .
qed

lemma get_messages_filter_mono:
  assumes "set F \<subseteq> set F'"
    and "get_messages_filter (JList msgs) (Some F') = Inr (JList r')"
    and "get_messages_filter (JList msgs) (Some F) = Inr (JList r)"
  shows "subseq r' r"
proof (cases F)
  case Nil
  then have r: "r = msgs" using assms(3) by (simp add: get_messages_filter_def)
  show ?thesis
  proof (cases F')
    case Nil
    then show ?thesis using assms(2) r by (simp add: get_messages_filter_def)
  next
    case (Cons a G)
    then have "get_messages_loop msgs F' [] = Inr r'"
      using assms(2) by (auto simp: get_messages_filter_def split: sum.splits)
    from get_messages_loop_suffix[OF this] show ?thesis using r by simp
  qed
next
  case (Cons a G)
  then obtain a' G' where F': "F' = a' # G'" using assms(1) by (cases F') auto
  have 1: "get_messages_loop msgs F' [] = Inr r'"
    using assms(2) F' by (auto simp: get_messages_filter_def split: sum.splits)
  have 2: "get_messages_loop msgs F [] = Inr r"
    using assms(3) Cons by (auto simp: get_messages_filter_def split: sum.splits)
  from get_messages_loop_mono[OF assms(1) 1 2] show ?thesis by simp
qed

text \<open>
  C5. When every constraint of \<open>F\<close> is a constraint of \<open>F'\<close>, the list returned under
  \<open>F'\<close> is a subsequence of the list returned under \<open>F\<close>: its messages are among those of
  the other and it is no longer. On messages of the data model both calls return a list.
\<close>

theorem get_messages_filter_monotonic:
  assumes "delivers (requests_get (messages_url self thread_id) (headers self)
             (request_params limit order_by)) msgs"
    and "set F \<subseteq> set F'"
  shows "(\<forall>r r'.
            returned (get_messages self requests_get thread_id (Some F) limit order_by)
              = Inr (JList r)
            \<and> returned (get_messages self requests_get thread_id (Some F') limit order_by)
              = Inr (JList r')
          \<longrightarrow> subseq r' r \<and> set r' \<subseteq> set r \<and> length r' \<le> length r)
     \<and> (list_all metadata_ok msgs \<longrightarrow>
          (\<exists>r r'.
            returned (get_messages self requests_get thread_id (Some F) limit order_by)
              = Inr (JList r)
            \<and> returned (get_messages self requests_get thread_id (Some F') limit order_by)
              = Inr (JList r')))"
proof (intro conjI allI impI)
  fix r r'
  assume "returned (get_messages self requests_get thread_id (Some F) limit order_by)
              = Inr (JList r)
            \<and> returned (get_messages self requests_get thread_id (Some F') limit order_by)
              = Inr (JList r')"
  then have "subseq r' r"
    using get_messages_filter_mono[OF assms(2), of msgs r' r]
    by (simp add: get_messages_delivers[where requests_get = requests_get, OF assms(1)])
  then show "subseq r' r" "set r' \<subseteq> set r" "length r' \<le> length r"
    by (auto dest: list_emb_set list_emb_length)
next
  assume "list_all metadata_ok msgs"
  then show "\<exists>r r'.
            returned (get_messages self requests_get thread_id (Some F) limit order_by)
              = Inr (JList r)
            \<and> returned (get_messages self requests_get thread_id (Some F') limit order_by)
              = Inr (JList r')"
    by (simp add: get_messages_delivers[where requests_get = requests_get, OF assms(1)]
        get_messages_filter_ok)
qed

theorem get_messages_filter_monotonic_witness:
  "delivers
     ((\<lambda>url hs ps. Returns \<lparr>status_code = 200, resp_text = [],
         resp_json = Some (JObj [(''data'', JList
           [JObj [(''metadata'', JObj [(''team'', JStr ''x'')])],
            JObj [(''metadata'', JObj [(''team'', JStr ''x''),
                                       (''user_email'', JStr ''a@b.com'')])]])])\<rparr>)
      (messages_url \<lparr>api_key = ''sk'', base_url = ''https://api.openai.com/v1'', headers = []\<rparr>
         ''thread_1'')
      (headers \<lparr>api_key = ''sk'', base_url = ''https://api.openai.com/v1'', headers = []\<rparr>)
      (request_params 100 ''desc''))
     [JObj [(''metadata'', JObj [(''team'', JStr ''x'')])],
      JObj [(''metadata'', JObj [(''team'', JStr ''x''), (''user_email'', JStr ''a@b.com'')])]]
   \<and> set [(''team'', ''x'')] \<subseteq> set [(''user_email'', ''a@b.com''), (''team'', ''x'')]
   \<and> list_all metadata_ok
       [JObj [(''metadata'', JObj [(''team'', JStr ''x'')])],
        JObj [(''metadata'', JObj [(''team'', JStr ''x''), (''user_email'', JStr ''a@b.com'')])]]
   \<and> returned (get_messages
        \<lparr>api_key = ''sk'', base_url = ''https://api.openai.com/v1'', headers = []\<rparr>
        (\<lambda>url hs ps. Returns \<lparr>status_code = 200, resp_text = [],
           resp_json = Some (JObj [(''data'', JList
             [JObj [(''metadata'', JObj [(''team'', JStr ''x'')])],
              JObj [(''metadata'', JObj [(''team'', JStr ''x''),
                                         (''user_email'', JStr ''a@b.com'')])]])])\<rparr>)
        ''thread_1'' (Some [(''team'', ''x'')]) 100 ''desc'')
     = Inr (JList
         [JObj [(''metadata'', JObj [(''team'', JStr ''x'')])],
          JObj [(''metadata'', JObj [(''team'', JStr ''x''), (''user_email'', JStr ''a@b.com'')])]])
   \<and> returned (get_messages
        \<lparr>api_key = ''sk'', base_url = ''https://api.openai.com/v1'', headers = []\<rparr>
        (\<lambda>url hs ps. Returns \<lparr>status_code = 200, resp_text = [],
           resp_json = Some (JObj [(''data'', JList
             [JObj [(''metadata'', JObj [(''team'', JStr ''x'')])],
              JObj [(''metadata'', JObj [(''team'', JStr ''x''),
                                         (''user_email'', JStr ''a@b.com'')])]])])\<rparr>)
        ''thread_1'' (Some [(''user_email'', ''a@b.com''), (''team'', ''x'')]) 100 ''desc'')
     = Inr (JList
         [JObj [(''metadata'', JObj [(''team'', JStr ''x''), (''user_email'', JStr ''a@b.com'')])]])"
  using get_messages_filter_monotonic
    [of "\<lambda>url hs ps. Returns \<lparr>status_code = 200, resp_text = [],
           resp_json = Some (JObj [(''data'', JList
             [JObj [(''metadata'', JObj [(''team'', JStr ''x'')])],
              JObj [(''metadata'', JObj [(''team'', JStr ''x''),
                                         (''user_email'', JStr ''a@b.com'')])]])])\<rparr>"
        "\<lparr>api_key = ''sk'', base_url = ''https://api.openai.com/v1'', headers = []\<rparr>"
        "''thread_1''" 100 "''desc''"
        "[JObj [(''metadata'', JObj [(''team'', JStr ''x'')])],
          JObj [(''metadata'', JObj [(''team'', JStr ''x''), (''user_email'', JStr ''a@b.com'')])]]"
        "[(''team'', ''x'')]" "[(''user_email'', ''a@b.com''), (''team'', ''x'')]"]
  by (simp add: get_messages_def get_messages_try_def get_messages_filter_def delivers_def
      raise_for_status_def response_json_def response_ok_def Let_def)



text \<open>
  The handler of \<^verbatim>\<open>get_messages\<close>: the \<^verbatim>\<open>try\<close> block raises a
  \<^verbatim>\<open>RequestException\<close> exactly when \<^verbatim>\<open>requests.get\<close> raises one, when
  \<^verbatim>\<open>raise_for_status\<close> rejects the status or when the body is not JSON; the handler then
  prints the exception first and \<^verbatim>\<open>get_messages\<close> returns the empty list.
\<close>

lemma get_messages_try_request_exception:
  "get_messages_try outcome F = Inl (RequestException e) \<longleftrightarrow>
     outcome = Raises e
     \<or> (\<exists>r. outcome = Returns r \<and>
           (\<not> response_ok r \<and> e = HTTPError r
            \<or> response_ok r \<and> resp_json r = None \<and> e = JSONDecodeError))"
proof (cases outcome)
  case (Raises x)
  then show ?thesis by (auto simp: get_messages_try_def)
next
  case (Returns r)
  have d: "py_get_default x k v \<noteq> Inl (RequestException e)" for x k v
    by (cases x) auto
  show ?thesis using Returns d get_messages_filter_no_request_exception[of _ F e]
    by (auto simp: get_messages_try_def raise_for_status_def response_json_def
        split: sum.splits option.splits)
qed

theorem get_messages_catches_request_exception:
  assumes "get_messages_try
             (requests_get (messages_url self thread_id) (headers self)
                (request_params limit order_by)) F = Inl (RequestException e)"
  shows "returned (get_messages self requests_get thread_id F limit order_by) = Inr (JList [])
    \<and> printed (get_messages self requests_get thread_id F limit order_by) =
        ErrorRetrievingMessages e #
          (if response_truthy (exc_response e)
           then (case exc_response e of
                   Some r \<Rightarrow> [ResponseStatus (status_code r), ResponseBody (resp_text r)]
                 | None \<Rightarrow> [])
           else [])"
  using assms by (simp add: get_messages_def Let_def)

theorem get_messages_catches_request_exception_witness:
  "get_messages_try
     ((\<lambda>url hs ps. Raises (TransportError ''Connection refused'' None))
        (messages_url \<lparr>api_key = ''sk'', base_url = ''https://api.openai.com/v1'', headers = []\<rparr>
           ''thread_1'')
        (headers \<lparr>api_key = ''sk'', base_url = ''https://api.openai.com/v1'', headers = []\<rparr>)
        (request_params 100 ''desc'')) None
     = Inl (RequestException (TransportError ''Connection refused'' None))
   \<and> returned (get_messages
        \<lparr>api_key = ''sk'', base_url = ''https://api.openai.com/v1'', headers = []\<rparr>
        (\<lambda>url hs ps. Raises (TransportError ''Connection refused'' None))
        ''thread_1'' None 100 ''desc'') = Inr (JList [])
   \<and> printed (get_messages
        \<lparr>api_key = ''sk'', base_url = ''https://api.openai.com/v1'', headers = []\<rparr>
        (\<lambda>url hs ps. Raises (TransportError ''Connection refused'' None))
        ''thread_1'' None 100 ''desc'')
     = [ErrorRetrievingMessages (TransportError ''Connection refused'' None)]"
  using get_messages_catches_request_exception
    [of "\<lambda>url hs ps. Raises (TransportError ''Connection refused'' None)"
        "\<lparr>api_key = ''sk'', base_url = ''https://api.openai.com/v1'', headers = []\<rparr>"
        "''thread_1''" 100 "''desc''" None "TransportError ''Connection refused'' None"]
  by (simp add: get_messages_try_def response_truthy_def)

text \<open>
  C8 at a response with the status 404. \<^verbatim>\<open>raise_for_status\<close> raises an
  \<^verbatim>\<open>HTTPError\<close> that carries the response, so the status and the body are available; the
  handler tests \<^verbatim>\<open>e.response\<close> for truth, a response with an error status is false, and
  the two lines are not printed. The exception is caught and the empty list returned.
\<close>

theorem get_messages_http_error_prints_no_status:
  "exc_response (HTTPError \<lparr>status_code = 404, resp_text = ''No thread found'', resp_json = None\<rparr>)
     = Some \<lparr>status_code = 404, resp_text = ''No thread found'', resp_json = None\<rparr>
   \<and> printed (get_messages
      \<lparr>api_key = ''sk'', base_url = ''https://api.openai.com/v1'', headers = []\<rparr>
      (\<lambda>url hs ps. Returns \<lparr>status_code = 404, resp_text = ''No thread found'', resp_json = None\<rparr>)
      ''thread_1'' None 100 ''desc'')
     = [ErrorRetrievingMessages
          (HTTPError \<lparr>status_code = 404, resp_text = ''No thread found'', resp_json = None\<rparr>)]
   \<and> returned (get_messages
      \<lparr>api_key = ''sk'', base_url = ''https://api.openai.com/v1'', headers = []\<rparr>
      (\<lambda>url hs ps. Returns \<lparr>status_code = 404, resp_text = ''No thread found'', resp_json = None\<rparr>)
      ''thread_1'' None 100 ''desc'') = Inr (JList [])"
  by (simp add: get_messages_def get_messages_try_def raise_for_status_def response_ok_def
      response_truthy_def Let_def)

section \<open>Properties of the polling loop\<close>

lemma wait_pending_step:
  "pending retrieve t r (calls w) \<Longrightarrow>
   wait_for_run_completion retrieve t r w =
   wait_for_run_completion retrieve t r (after_polls retrieve t r w (Suc 0))"
  by (subst wait_for_run_completion.simps)
     (auto simp: pending_def after_polls_def waiting_line_def split: sum.splits)

lemma upt_shift: "[c ..< c + Suc k] = c # [Suc c ..< Suc c + k]"
  by (simp add: upt_conv_Cons)

lemma after_polls_Suc:
  "after_polls retrieve t r (after_polls retrieve t r w (Suc 0)) k =
   after_polls retrieve t r w (Suc k)"
  unfolding after_polls_def upt_shift[of "calls w" k] by simp

lemma wait_pending_skip:
  "\<forall>i<k. pending retrieve t r (calls w + i) \<Longrightarrow>
   wait_for_run_completion retrieve t r w =
   wait_for_run_completion retrieve t r (after_polls retrieve t r w k)"
proof (induction k arbitrary: w)
  case 0
  then show ?case by (simp add: after_polls_def)
next
  case (Suc k)
  from Suc.prems have p0: "pending retrieve t r (calls w)" by auto
  have "\<forall>i<k. pending retrieve t r (calls (after_polls retrieve t r w (Suc 0)) + i)"
    using Suc.prems by (auto simp: after_polls_def)
  from Suc.IH[OF this] have
    "wait_for_run_completion retrieve t r (after_polls retrieve t r w (Suc 0)) =
     wait_for_run_completion retrieve t r (after_polls retrieve t r w (Suc k))"
    by (simp only: after_polls_Suc)
  with wait_pending_step[OF p0] show ?case by simp
qed

lemma wait_final:
  "\<not> pending retrieve t r (calls w) \<Longrightarrow>
   wait_for_run_completion retrieve t r w =
     Some (case retrieve t r (calls w) of
             Inl e \<Rightarrow> Inl e
           | Inr x \<Rightarrow> if status x = ''completed'' then Inr x
                      else Inl (Exception (''Run ended with status: '' @ status x)),
           w\<lparr>calls := calls w + 1\<rparr>)"
  by (subst wait_for_run_completion.simps)
     (auto simp: pending_def split: sum.splits)

text \<open>A loop that returns has met a poll that is not pending.\<close>

lemma wait_some:
  "wait_for_run_completion retrieve t r w = Some y \<Longrightarrow>
   \<exists>k. (\<forall>i<k. pending retrieve t r (calls w + i)) \<and> \<not> pending retrieve t r (calls w + k)"
proof (induction rule: wait_for_run_completion.raw_induct[rotated 1, consumes 1])
  case (1 f retrieve t r w y)
  show ?case
  proof (cases "pending retrieve t r (calls w)")
    case False
    then have "(\<forall>i<0. pending retrieve t r (calls w + i))
        \<and> \<not> pending retrieve t r (calls w + 0)"
      by simp
    then show ?thesis by blast
  next
    case True
    then have "f retrieve t r (after_polls retrieve t r w (Suc 0)) = Some y"
      using 1(2)
      by (auto simp: pending_def after_polls_def waiting_line_def split: sum.splits)
    from 1(1)[OF this] obtain k where
      k: "\<forall>i<k. pending retrieve t r (Suc (calls w) + i)"
         "\<not> pending retrieve t r (Suc (calls w) + k)"
      by (auto simp: after_polls_def)
    have "\<forall>i<Suc k. pending retrieve t r (calls w + i)"
    proof (intro allI impI)
      fix i assume "i < Suc k"
      then show "pending retrieve t r (calls w + i)"
        using True k(1) by (cases i) auto
    qed
    moreover have "\<not> pending retrieve t r (calls w + Suc k)" using k(2) by simp
    ultimately show ?thesis by blast
  qed
qed

text \<open>
  C9. \<^verbatim>\<open>wait_for_run_completion\<close> returns or raises exactly when, after some number
  \<open>k\<close> of pending polls, each followed by a printed line and a sleep of two seconds, a poll
  is not pending. It then returns the run exactly when the status is \<^verbatim>\<open>completed\<close>, and
  raises the exception whose message ends with the status exactly when the status is
  \<^verbatim>\<open>failed\<close>, \<^verbatim>\<open>cancelled\<close> or \<^verbatim>\<open>expired\<close> (an exception of \<^verbatim>\<open>retrieve\<close> itself
  goes through). A run that it returns has the status \<^verbatim>\<open>completed\<close>; while the polls
  stay pending the loop does not end.
\<close>

theorem wait_for_run_completion_outcome:
  "(wait_for_run_completion retrieve thread_id rid w = Some (res, w') \<longleftrightarrow>
    (\<exists>k. (\<forall>i<k. pending retrieve thread_id rid (calls w + i))
       \<and> w' = (after_polls retrieve thread_id rid w k)\<lparr>calls := calls w + k + 1\<rparr>
       \<and> (case retrieve thread_id rid (calls w + k) of
            Inl e \<Rightarrow> res = Inl e
          | Inr x \<Rightarrow>
              status x = ''completed'' \<and> res = Inr x
              \<or> status x \<in> set [''failed'', ''cancelled'', ''expired'']
                \<and> res = Inl (Exception (''Run ended with status: '' @ status x)))))
   \<and> (\<forall>x. wait_for_run_completion retrieve thread_id rid w = Some (Inr x, w') \<longrightarrow>
          status x = ''completed'')
   \<and> ((\<forall>n. pending retrieve thread_id rid (calls w + n)) \<longrightarrow>
          wait_for_run_completion retrieve thread_id rid w = None)"
proof (intro conjI)
  have main: "wait_for_run_completion retrieve thread_id rid w = Some (res, w') \<longleftrightarrow>
    (\<exists>k. (\<forall>i<k. pending retrieve thread_id rid (calls w + i))
       \<and> w' = (after_polls retrieve thread_id rid w k)\<lparr>calls := calls w + k + 1\<rparr>
       \<and> (case retrieve thread_id rid (calls w + k) of
            Inl e \<Rightarrow> res = Inl e
          | Inr x \<Rightarrow>
              status x = ''completed'' \<and> res = Inr x
              \<or> status x \<in> set [''failed'', ''cancelled'', ''expired'']
                \<and> res = Inl (Exception (''Run ended with status: '' @ status x))))"
    (is "?L res \<longleftrightarrow> ?R res") for res
  proof
    assume L: "?L res"
    from wait_some[OF L] obtain k where
      k: "\<forall>i<k. pending retrieve thread_id rid (calls w + i)"
         "\<not> pending retrieve thread_id rid (calls w + k)" by blast
    let ?w = "after_polls retrieve thread_id rid w k"
    have c: "calls ?w = calls w + k" by (simp add: after_polls_def)
    from k(2) have np: "\<not> pending retrieve thread_id rid (calls ?w)" by (simp add: c)
    from L have "wait_for_run_completion retrieve thread_id rid ?w = Some (res, w')"
      by (simp add: wait_pending_skip[OF k(1)])
    then show "?R res" using k np unfolding wait_final[OF np]
      by (intro exI[of _ k]) (auto simp: c pending_def split: sum.splits if_splits)
  next
    assume "?R res"
    then obtain k where k: "\<forall>i<k. pending retrieve thread_id rid (calls w + i)"
      and w': "w' = (after_polls retrieve thread_id rid w k)\<lparr>calls := calls w + k + 1\<rparr>"
      and fin: "(case retrieve thread_id rid (calls w + k) of
             Inl e \<Rightarrow> res = Inl e
           | Inr x \<Rightarrow>
               status x = ''completed'' \<and> res = Inr x
               \<or> status x \<in> set [''failed'', ''cancelled'', ''expired'']
                 \<and> res = Inl (Exception (''Run ended with status: '' @ status x)))"
      by blast
    let ?w = "after_polls retrieve thread_id rid w k"
    have c: "calls ?w = calls w + k" by (simp add: after_polls_def)
    from fin have np: "\<not> pending retrieve thread_id rid (calls ?w)"
      by (auto simp: c pending_def split: sum.splits)
    show "?L res" unfolding wait_pending_skip[OF k] wait_final[OF np] using fin w'
      by (auto simp: c split: sum.splits)
  qed
  from main[of res] show "wait_for_run_completion retrieve thread_id rid w = Some (res, w') \<longleftrightarrow>
    (\<exists>k. (\<forall>i<k. pending retrieve thread_id rid (calls w + i))
       \<and> w' = (after_polls retrieve thread_id rid w k)\<lparr>calls := calls w + k + 1\<rparr>
       \<and> (case retrieve thread_id rid (calls w + k) of
            Inl e \<Rightarrow> res = Inl e
          | Inr x \<Rightarrow>
              status x = ''completed'' \<and> res = Inr x
              \<or> status x \<in> set [''failed'', ''cancelled'', ''expired'']
                \<and> res = Inl (Exception (''Run ended with status: '' @ status x))))" .
  show "\<forall>x. wait_for_run_completion retrieve thread_id rid w = Some (Inr x, w') \<longrightarrow>
          status x = ''completed''"
  proof (intro allI impI)
    fix x
    assume "wait_for_run_completion retrieve thread_id rid w = Some (Inr x, w')"
    with main[of "Inr x"] obtain k where
      "case retrieve thread_id rid (calls w + k) of
         Inl e \<Rightarrow> (Inr x :: py_error + run) = Inl e
       | Inr x' \<Rightarrow>
           status x' = ''completed'' \<and> (Inr x :: py_error + run) = Inr x'
           \<or> status x' \<in> set [''failed'', ''cancelled'', ''expired'']
             \<and> (Inr x :: py_error + run)
               = Inl (Exception (''Run ended with status: '' @ status x'))"
      by blast
    then show "status x = ''completed''"
      by (cases "retrieve thread_id rid (calls w + k)") auto
  qed
  show "(\<forall>n. pending retrieve thread_id rid (calls w + n)) \<longrightarrow>
          wait_for_run_completion retrieve thread_id rid w = None"
  proof
    assume all: "\<forall>n. pending retrieve thread_id rid (calls w + n)"
    show "wait_for_run_completion retrieve thread_id rid w = None"
    proof (cases "wait_for_run_completion retrieve thread_id rid w")
      case None
      then show ?thesis .
    next
      case (Some y)
      from wait_some[OF Some] all show ?thesis by blast
    qed
  qed
qed

theorem wait_for_run_completion_outcome_witness:
  "wait_for_run_completion
     (\<lambda>t r n. Inr \<lparr>run_id = r, status = (if n < 2 then ''in_progress'' else ''completed'')\<rparr>)
     ''thread_1'' ''run_1'' \<lparr>calls = 0, lines = [], slept = 0\<rparr>
   = Some (Inr \<lparr>run_id = ''run_1'', status = ''completed''\<rparr>,
           \<lparr>calls = 3,
            lines = [''Waiting for run to complete. Current status: in_progress'',
                     ''Waiting for run to complete. Current status: in_progress''],
            slept = 4\<rparr>)"
proof -
  let ?retrieve = "\<lambda>(t::string) (r::string) (n::nat).
     (Inr \<lparr>run_id = r, status = (if n < 2 then ''in_progress'' else ''completed'')\<rparr>
        :: py_error + run)"
  let ?w = "\<lparr>calls = 0, lines = [], slept = 0\<rparr>"
  have p: "\<forall>i<2. pending ?retrieve ''thread_1'' ''run_1'' (calls ?w + i)"
    by (simp add: pending_def)
  have u: "[0..<2] = [0, Suc 0]" by (simp add: upt_conv_Cons)
  have "\<exists>k. (\<forall>i<k. pending ?retrieve ''thread_1'' ''run_1'' (calls ?w + i))
       \<and> \<lparr>calls = 3,
            lines = [''Waiting for run to complete. Current status: in_progress'',
                     ''Waiting for run to complete. Current status: in_progress''],
            slept = 4\<rparr>
          = (after_polls ?retrieve ''thread_1'' ''run_1'' ?w k)\<lparr>calls := calls ?w + k + 1\<rparr>
       \<and> (case ?retrieve ''thread_1'' ''run_1'' (calls ?w + k) of
            Inl e \<Rightarrow> (Inr \<lparr>run_id = ''run_1'', status = ''completed''\<rparr> :: py_error + run) = Inl e
          | Inr x \<Rightarrow>
              status x = ''completed''
              \<and> (Inr \<lparr>run_id = ''run_1'', status = ''completed''\<rparr> :: py_error + run) = Inr x
              \<or> status x \<in> set [''failed'', ''cancelled'', ''expired'']
                \<and> (Inr \<lparr>run_id = ''run_1'', status = ''completed''\<rparr> :: py_error + run)
                  = Inl (Exception (''Run ended with status: '' @ status x)))"
    using p by (intro exI[of _ 2]) (simp add: after_polls_def waiting_line_def u)
  with wait_for_run_completion_outcome
         [of ?retrieve "''thread_1''" "''run_1''" ?w
             "Inr \<lparr>run_id = ''run_1'', status = ''completed''\<rparr>"
             "\<lparr>calls = 3,
               lines = [''Waiting for run to complete. Current status: in_progress'',
                        ''Waiting for run to complete. Current status: in_progress''],
               slept = 4\<rparr>"]
  show ?thesis by blast
qed

end
